theory Spec2Isabelle
  imports Main "HOL-Library.Word"
begin

section \<open>Data model\<close>

text \<open>
  The gateway keeps pointers to its connections; the model keeps a store from
  connection identities to connection values, and the gateway's list and per-user
  index hold identities. Pointer comparison (\<^verbatim>\<open>session != s\<close>) is comparison of
  identities. Sessions and tunnels of a connection are held by identity as well.
\<close>

type_synonym cid = nat
type_synonym uint16 = "16 word"
type_synonym uint32 = "32 word"
type_synonym bytes = string

datatype error = ErrServiceAlreadyRegistered | ErrServiceNotFound

text \<open>
  \<^verbatim>\<open>type Connection struct\<close> of connection.go: the fields the operations below read or
  write. \<open>services\<close> is \<^verbatim>\<open>map[string]map[uint16]bool\<close>; \<open>closeOnce\<close> is True once the
  \<^verbatim>\<open>sync.Once\<close> has run; \<open>used\<close> is \<^verbatim>\<open>c.usage.used\<close>, a point in time counted in
  nanoseconds.
\<close>

record Connection =
  user :: string
  sessions :: "nat list"
  tunnels :: "nat list"
  services :: "string \<rightharpoonup> (uint16 \<rightharpoonup> bool)"
  closeOnce :: bool
  used :: int
  admin :: bool

text \<open>
  \<^verbatim>\<open>type Gateway struct\<close>: the per-user index \<^verbatim>\<open>map[string][]*Session\<close> and the flat
  list. (In this revision of gateway.go a connection is called a session; connection.go
  calls the same operations \<^verbatim>\<open>deleteConnection\<close> and \<^verbatim>\<open>lookupConnectionService\<close>.)
\<close>

record Gateway =
  sessionsIndex :: "string \<rightharpoonup> cid list"
  sessionsList :: "cid list"

record system =
  gateway :: Gateway
  conns :: "cid \<Rightarrow> Connection"

section \<open>Services of one connection\<close>

text \<open>Reading \<^verbatim>\<open>c.services[host]\<close>: a missing key reads as the nil map.\<close>

definition ports_of :: "Connection \<Rightarrow> string \<Rightarrow> (uint16 \<rightharpoonup> bool)" where
  "ports_of c host = (case services c host of None \<Rightarrow> Map.empty | Some ports \<Rightarrow> ports)"

text \<open>Reading \<^verbatim>\<open>c.services[host][port]\<close>: a missing key reads as false.\<close>

definition port_at :: "Connection \<Rightarrow> string \<Rightarrow> uint16 \<Rightarrow> bool" where
  "port_at c host port = (case ports_of c host port of None \<Rightarrow> False | Some b \<Rightarrow> b)"

definition lookupService :: "Connection \<Rightarrow> string \<Rightarrow> uint16 \<Rightarrow> bool" where
  "lookupService c host port =
     (if services c host = None then False else port_at c host port)"

definition registerService :: "Connection \<Rightarrow> string \<Rightarrow> uint16 \<Rightarrow> error option \<times> Connection" where
  "registerService c host port =
     (let c1 = (if services c host = None
                then c\<lparr>services := (services c)(host \<mapsto> Map.empty)\<rparr> else c)
      in if port_at c1 host port then (Some ErrServiceAlreadyRegistered, c1)
         else (None, c1\<lparr>services := (services c1)(host \<mapsto> (ports_of c1 host)(port \<mapsto> True))\<rparr>))"

definition deregisterService :: "Connection \<Rightarrow> string \<Rightarrow> uint16 \<Rightarrow> error option \<times> Connection" where
  "deregisterService c host port =
     (case services c host of
        None \<Rightarrow> (None, c)
      | Some ports \<Rightarrow> (None, c\<lparr>services := (services c)(host \<mapsto> ports(port := None))\<rparr>))"

section \<open>Strings\<close>

text \<open>
  \<^verbatim>\<open>strings.Split(s, sep)\<close> for a separator of one byte: the pieces between the
  separators, one piece more than there are separators (so the empty string splits into
  one empty piece). \<^verbatim>\<open>strings.Join(parts, sep)\<close> is its inverse.
\<close>

fun Split :: "string \<Rightarrow> char \<Rightarrow> string list" where
  "Split [] sep = [[]]"
| "Split (c # cs) sep =
     (if c = sep then [] # Split cs sep
      else (case Split cs sep of [] \<Rightarrow> [[c]] | w # ws \<Rightarrow> (c # w) # ws))"

fun Join :: "string list \<Rightarrow> string \<Rightarrow> string" where
  "Join [] sep = []"
| "Join [x] sep = x"
| "Join (x # y # ys) sep = x @ sep @ Join (y # ys) sep"

section \<open>The gateway's registry\<close>

text \<open>Reading \<^verbatim>\<open>g.sessionsIndex[user]\<close>: a missing key reads as the nil slice.\<close>

definition index_at :: "Gateway \<Rightarrow> string \<Rightarrow> cid list" where
  "index_at g u = (case sessionsIndex g u of None \<Rightarrow> [] | Some l \<Rightarrow> l)"

definition AddSession :: "cid \<Rightarrow> system \<Rightarrow> system" where
  "AddSession s st =
     (let g = gateway st; u = user (conns st s)
      in st\<lparr>gateway := g\<lparr>sessionsIndex := (sessionsIndex g)(u \<mapsto> s # index_at g u),
                           sessionsList := s # sessionsList g\<rparr>\<rparr>)"

definition DeleteSession :: "cid \<Rightarrow> system \<Rightarrow> system" where
  "DeleteSession s st =
     (let g = gateway st; u = user (conns st s)
      in st\<lparr>gateway := g\<lparr>sessionsIndex := (sessionsIndex g)(u \<mapsto> filter (\<lambda>x. x \<noteq> s) (index_at g u)),
                           sessionsList := filter (\<lambda>x. x \<noteq> s) (sessionsList g)\<rparr>\<rparr>)"

text \<open>
  \<^verbatim>\<open>LookupSessionService\<close>: the inner loop over one user's connections, the outer loop
  over the split points \<^verbatim>\<open>i\<close> of \<^verbatim>\<open>for i := range parts\<close>, and the function itself.
  The miss \<^verbatim>\<open>return nil, "", 0\<close> is \<open>None\<close>.
\<close>

fun scan_sessions :: "(cid \<Rightarrow> Connection) \<Rightarrow> cid list \<Rightarrow> string \<Rightarrow> uint16 \<Rightarrow> cid option" where
  "scan_sessions cs [] host port = None"
| "scan_sessions cs (s # ss) host port =
     (if lookupService (cs s) host port then Some s else scan_sessions cs ss host port)"

fun lookup_range :: "system \<Rightarrow> string list \<Rightarrow> uint16 \<Rightarrow> nat list \<Rightarrow> (cid \<times> string \<times> uint16) option" where
  "lookup_range st parts port [] = None"
| "lookup_range st parts port (i # is) =
     (let host = Join (take i parts) ''.''; u = Join (drop i parts) ''.''
      in case scan_sessions (conns st) (index_at (gateway st) u) host port of
           Some s \<Rightarrow> Some (s, host, port)
         | None \<Rightarrow> lookup_range st parts port is)"

definition LookupSessionService :: "system \<Rightarrow> string \<Rightarrow> uint16 \<Rightarrow> (cid \<times> string \<times> uint16) option" where
  "LookupSessionService st host port =
     (let parts = Split host (CHR ''.'') in lookup_range st parts port [0..<length parts])"

definition Sessions :: "system \<Rightarrow> cid list" where
  "Sessions st = sessionsList (gateway st)"

section \<open>Wire payloads\<close>

text \<open>
  The two payload shapes. The handlers below take the codecs
  \<^verbatim>\<open>unmarshalForwardRequest\<close>, \<^verbatim>\<open>unmarshalTunnelData\<close> and \<^verbatim>\<open>marshalTunnelData\<close> as
  parameters (a failed decode is \<open>None\<close>), so what is proved of a handler holds for
  every codec. A byte string is a \<open>string\<close>: both are sequences of 8-bit characters.
\<close>

record forwardRequest =
  Host :: string
  Port :: uint32

record tunnelData = forwardRequest +
  OriginAddress :: string
  OriginPort :: uint32

record Request =
  Type :: string
  WantReply :: bool
  Payload :: bytes

text \<open>
  Modelled from the spec: the wire codecs \<^verbatim>\<open>unmarshalForwardRequest\<close>,
  \<^verbatim>\<open>unmarshalTunnelData\<close> and \<^verbatim>\<open>marshalTunnelData\<close>, whose source is missing. Section 4.1:
  both payloads are "SSH string-and-uint32 framed" (a string is a 32-bit big-endian
  length followed by that many bytes, a uint32 is four bytes, big-endian), and
  "decoding fails with a malformed-payload error if any length prefix runs past the
  buffer". They serve as concrete codecs where a handler is run on concrete bytes.
\<close>

definition get_uint32 :: "bytes \<Rightarrow> (uint32 \<times> bytes) option" where
  "get_uint32 bs =
     (case bs of
        a # b # c # d # rest \<Rightarrow>
          Some (push_bit 24 (of_char a) + push_bit 16 (of_char b) + push_bit 8 (of_char c) + of_char d, rest)
      | _ \<Rightarrow> None)"

definition get_string :: "bytes \<Rightarrow> (string \<times> bytes) option" where
  "get_string bs =
     (case get_uint32 bs of
        None \<Rightarrow> None
      | Some (n, rest) \<Rightarrow> if length rest < unat n then None else Some (take (unat n) rest, drop (unat n) rest))"

definition put_uint32 :: "uint32 \<Rightarrow> bytes" where
  "put_uint32 w =
     [char_of (unat (drop_bit 24 w)), char_of (unat (drop_bit 16 w)),
      char_of (unat (drop_bit 8 w)), char_of (unat w)]"

definition put_string :: "string \<Rightarrow> bytes" where
  "put_string s = put_uint32 (word_of_nat (length s)) @ s"

definition unmarshalForwardRequest :: "bytes \<Rightarrow> forwardRequest option" where
  "unmarshalForwardRequest bs =
     (case get_string bs of
        None \<Rightarrow> None
      | Some (h, r1) \<Rightarrow>
          (case get_uint32 r1 of
             None \<Rightarrow> None
           | Some (p, r2) \<Rightarrow> Some \<lparr>Host = h, Port = p\<rparr>))"

definition unmarshalTunnelData :: "bytes \<Rightarrow> tunnelData option" where
  "unmarshalTunnelData bs =
     (case get_string bs of
        None \<Rightarrow> None
      | Some (h, r1) \<Rightarrow>
          (case get_uint32 r1 of
             None \<Rightarrow> None
           | Some (p, r2) \<Rightarrow>
               (case get_string r2 of
                  None \<Rightarrow> None
                | Some (oa, r3) \<Rightarrow>
                    (case get_uint32 r3 of
                       None \<Rightarrow> None
                     | Some (op, r4) \<Rightarrow>
                         Some \<lparr>Host = h, Port = p, OriginAddress = oa, OriginPort = op\<rparr>))))"

definition marshalTunnelData :: "tunnelData \<Rightarrow> bytes" where
  "marshalTunnelData d =
     put_string (Host d) @ put_uint32 (Port d) @ put_string (OriginAddress d) @ put_uint32 (OriginPort d)"

section \<open>Global requests\<close>

text \<open>
  \<^verbatim>\<open>handleRequest\<close>: the \<^verbatim>\<open>switch request.Type\<close> computes \<^verbatim>\<open>ok\<close> and the changed
  connection; the reply is sent only \<^verbatim>\<open>if request.WantReply\<close>, and carries \<^verbatim>\<open>ok\<close>.
  \<^verbatim>\<open>uint16(request.Port)\<close> keeps the low 16 bits: \<open>ucast\<close>.
\<close>

definition request_switch :: "(bytes \<Rightarrow> forwardRequest option) \<Rightarrow> Connection \<Rightarrow> Request \<Rightarrow> bool \<times> Connection" where
  "request_switch unmarshal c request =
     (if Type request = ''tcpip-forward'' then
        (case unmarshal (Payload request) of
           None \<Rightarrow> (False, c)
         | Some r \<Rightarrow>
             if Port r = 0 then (False, c)
             else (case registerService c (Host r) (ucast (Port r)) of
                     (Some err, c') \<Rightarrow> (False, c')
                   | (None, c') \<Rightarrow> (True, c')))
      else if Type request = ''cancel-tcpip-forward'' then
        (case unmarshal (Payload request) of
           None \<Rightarrow> (False, c)
         | Some r \<Rightarrow>
             (case deregisterService c (Host r) (ucast (Port r)) of
                (Some err, c') \<Rightarrow> (False, c')
              | (None, c') \<Rightarrow> (True, c')))
      else (False, c))"

definition handleRequest :: "(bytes \<Rightarrow> forwardRequest option) \<Rightarrow> Connection \<Rightarrow> Request \<Rightarrow> bool option \<times> Connection" where
  "handleRequest unmarshal c request =
     (case request_switch unmarshal c request of
        (ok, c') \<Rightarrow> (if WantReply request then Some ok else None, c'))"

section \<open>Channels\<close>

text \<open>
  What a handler does to the outside is recorded as a list of actions, in the order of
  the calls. \<open>newTunnel\<close> and \<open>newSession\<close> give a new object: its identity is taken
  from the counter \<open>fresh\<close>. Whether the peer takes a channel the gateway opens, and
  whether \<^verbatim>\<open>newChannel.Accept()\<close> succeeds, is decided outside: the two flags
  \<open>openOk\<close> and \<open>acceptOk\<close>.
\<close>

datatype RejectionReason =
  NoReason | Prohibited | ConnectionFailed | UnknownChannelType | ResourceShortage

datatype action =
    OpenChannel cid string bytes
  | AcceptChannel
  | ChannelClose
  | SessionClose nat
  | TunnelClose nat
  | ConnClose cid
  | Deregister cid

record channels =
  sys :: system
  fresh :: nat

definition addSession :: "nat \<Rightarrow> Connection \<Rightarrow> Connection" where
  "addSession s c = c\<lparr>sessions := s # sessions c\<rparr>"

definition addTunnel :: "nat \<Rightarrow> Connection \<Rightarrow> Connection" where
  "addTunnel t c = c\<lparr>tunnels := t # tunnels c\<rparr>"

definition on_conn :: "cid \<Rightarrow> (Connection \<Rightarrow> Connection) \<Rightarrow> channels \<Rightarrow> channels" where
  "on_conn c f w = w\<lparr>sys := (sys w)\<lparr>conns := (conns (sys w))(c := f (conns (sys w) c))\<rparr>\<rparr>"

definition openTunnel :: "bool \<Rightarrow> cid \<Rightarrow> string \<Rightarrow> bytes \<Rightarrow> channels \<Rightarrow> nat option \<times> action list \<times> channels" where
  "openTunnel openOk c channelType extraData w =
     (if \<not> openOk then (None, [OpenChannel c channelType extraData], w)
      else let tunnel = fresh w
           in (Some tunnel, [OpenChannel c channelType extraData],
               on_conn c (addTunnel tunnel) (w\<lparr>fresh := Suc tunnel\<rparr>)))"

definition handleSessionChannel ::
  "bool \<Rightarrow> cid \<Rightarrow> bytes \<Rightarrow> channels \<Rightarrow> (bool \<times> RejectionReason \<times> string) \<times> action list \<times> channels" where
  "handleSessionChannel acceptOk c extraData w =
     (if length extraData > 0 then ((False, Prohibited, ''extra data not allowed''), [], w)
      else if \<not> acceptOk then ((True, NoReason, []), [AcceptChannel], w)
      else let session = fresh w
           in ((True, NoReason, []), [AcceptChannel],
               on_conn c (addSession session) (w\<lparr>fresh := Suc session\<rparr>)))"

definition handleTunnelChannel ::
  "(bytes \<Rightarrow> tunnelData option) \<Rightarrow> (tunnelData \<Rightarrow> bytes) \<Rightarrow> bool \<Rightarrow> bool \<Rightarrow> cid \<Rightarrow> bytes \<Rightarrow> channels
     \<Rightarrow> (bool \<times> RejectionReason \<times> string) \<times> action list \<times> channels" where
  "handleTunnelChannel unmarshal marshal openOk acceptOk c extraData w =
     (case unmarshal extraData of
        None \<Rightarrow> ((False, UnknownChannelType, ''failed to decode extra data''), [], w)
      | Some data \<Rightarrow>
          (case LookupSessionService (sys w) (Host data) (ucast (Port data)) of
             None \<Rightarrow> ((False, ConnectionFailed, ''service not found or not online''), [], w)
           | Some (connection, host, port) \<Rightarrow>
               if \<not> admin (conns (sys w) c) then ((False, Prohibited, ''permission denied''), [], w)
               else
                 let data2 = \<lparr>Host = host, Port = ucast port,
                              OriginAddress = OriginAddress data, OriginPort = OriginPort data\<rparr>
                 in (case openTunnel openOk connection ''forwarded-tcpip'' (marshal data2) w of
                       (None, acts, w1) \<Rightarrow> ((False, ConnectionFailed, ''failed to connect''), acts, w1)
                     | (Some tunnel2, acts, w1) \<Rightarrow>
                         if \<not> acceptOk
                         then ((True, NoReason, []), acts @ [AcceptChannel, TunnelClose tunnel2], w1)
                         else let tunnel = fresh w1
                              in ((True, NoReason, []), acts @ [AcceptChannel],
                                  on_conn c (addTunnel tunnel) (w1\<lparr>fresh := Suc tunnel\<rparr>)))))"

text \<open>
  \<^verbatim>\<open>handleChannel\<close>: the dispatch on the channel type, and the rejection of a channel
  that was not taken, by accepting and closing it.
\<close>

definition handleChannel ::
  "(bytes \<Rightarrow> tunnelData option) \<Rightarrow> (tunnelData \<Rightarrow> bytes) \<Rightarrow> bool \<Rightarrow> bool \<Rightarrow> cid \<Rightarrow> string \<Rightarrow> bytes \<Rightarrow> channels
     \<Rightarrow> (bool \<times> RejectionReason \<times> string) \<times> action list \<times> channels" where
  "handleChannel unmarshal marshal openOk acceptOk c channelType extraData w =
     (case (if channelType = ''session'' then handleSessionChannel acceptOk c extraData w
            else if channelType = ''direct-tcpip''
            then handleTunnelChannel unmarshal marshal openOk acceptOk c extraData w
            else ((False, UnknownChannelType, ''unknown channel type''), [], w)) of
        ((ok, rejection, message), acts, w') \<Rightarrow>
          if ok then ((ok, rejection, message), acts, w')
          else ((ok, rejection, message),
                acts @ (if acceptOk then [AcceptChannel, ChannelClose] else [AcceptChannel]), w'))"

section \<open>Closing and scavenging\<close>

text \<open>
  \<^verbatim>\<open>Close\<close>: under \<^verbatim>\<open>closeOnce\<close>, the connection is taken out of the gateway
  (\<open>Deregister\<close> is that call), then \<open>teardown\<close> closes the sessions, the tunnels and the
  transport it finds. What \<^verbatim>\<open>Session.Close\<close> and \<^verbatim>\<open>Tunnel.Close\<close> do lies outside
  connection.go and gateway.go: the calls are recorded. Every call is recorded together
  with the gateway's registry as it is at the moment of the call (\<open>calls\<close>), so that the
  record shows whether the connection was still registered then. \<open>mark_closed\<close> is the
  \<^verbatim>\<open>sync.Once\<close> having run.
\<close>

type_synonym trace = "(action \<times> Gateway) list"

definition calls :: "action list \<Rightarrow> system \<Rightarrow> trace" where
  "calls as st = map (\<lambda>a. (a, gateway st)) as"

definition teardown :: "cid \<Rightarrow> system \<Rightarrow> trace" where
  "teardown c st =
     calls (map SessionClose (sessions (conns st c)) @ map TunnelClose (tunnels (conns st c))
            @ [ConnClose c]) st"

definition mark_closed :: "cid \<Rightarrow> system \<Rightarrow> system" where
  "mark_closed c st = st\<lparr>conns := (conns st)(c := (conns st c)\<lparr>closeOnce := True\<rparr>)\<rparr>"

definition Close :: "cid \<Rightarrow> system \<Rightarrow> trace \<times> system" where
  "Close c st =
     (if closeOnce (conns st c) then ([], st)
      else let st1 = mark_closed c st;
               st2 = DeleteSession c st1
           in (calls [Deregister c] st1 @ teardown c st2, st2))"

text \<open>
  Time. A point in time is an integer count of nanoseconds. A \<^verbatim>\<open>time.Duration\<close> is an
  \<^verbatim>\<open>int64\<close> of nanoseconds: as a parameter it is a 64-bit word read as signed.
  \<^verbatim>\<open>time.Since(t)\<close>, at the clock reading \<open>now\<close>, is \<^verbatim>\<open>now.Sub(t)\<close>: the difference, or
  the largest or smallest duration where the difference does not fit. \<open>Since\<close> gives the
  value of that duration.
\<close>

definition maxDuration :: int where
  "maxDuration = 2 ^ 63 - 1"

definition minDuration :: int where
  "minDuration = - (2 ^ 63)"

definition Since :: "int \<Rightarrow> int \<Rightarrow> int" where
  "Since now t =
     (if now - t > maxDuration then maxDuration
      else if now - t < minDuration then minDuration
      else now - t)"

text \<open>
  \<^verbatim>\<open>ScavengeSessions\<close>: the loop over the copy of the list that \<^verbatim>\<open>Sessions()\<close>
  returns. \<^verbatim>\<open>time.Since\<close> reads the clock anew in each round: \<open>now i\<close> is the reading
  of round \<open>i\<close>. The result lists the connections on which \<^verbatim>\<open>Close\<close> was called, in
  order, and the record of these calls.
\<close>

fun scavenge_loop :: "64 word \<Rightarrow> (nat \<Rightarrow> int) \<Rightarrow> nat \<Rightarrow> cid list \<Rightarrow> system \<Rightarrow> cid list \<times> trace \<times> system" where
  "scavenge_loop timeout now i [] st = ([], [], st)"
| "scavenge_loop timeout now i (s # ss) st =
     (let idle = Since (now i) (used (conns st s))
      in if idle > sint timeout
         then (case Close s st of
                 (acts, st1) \<Rightarrow>
                   (case scavenge_loop timeout now (Suc i) ss st1 of
                      (closed, acts', st2) \<Rightarrow> (s # closed, acts @ acts', st2)))
         else scavenge_loop timeout now (Suc i) ss st)"

definition ScavengeSessions :: "64 word \<Rightarrow> (nat \<Rightarrow> int) \<Rightarrow> system \<Rightarrow> cid list \<times> trace \<times> system" where
  "ScavengeSessions timeout now st = scavenge_loop timeout now 0 (Sessions st) st"

text \<open>
  The scavenger as the specification words it: the connections that are due are those of
  the list whose idle time, at the clock reading of their round, exceeds the timeout;
  \<open>close_all\<close> calls \<open>Close\<close> on each connection of a list, in order.
\<close>

definition expired :: "64 word \<Rightarrow> (nat \<Rightarrow> int) \<Rightarrow> nat \<Rightarrow> cid list \<Rightarrow> system \<Rightarrow> cid list" where
  "expired timeout now i ss st =
     map fst (filter (\<lambda>(s, k). Since (now k) (used (conns st s)) > sint timeout)
                (zip ss [i..<i + length ss]))"

fun close_all :: "cid list \<Rightarrow> system \<Rightarrow> trace \<times> system" where
  "close_all [] st = ([], st)"
| "close_all (c # cs) st =
     (case Close c st of
        (acts, st1) \<Rightarrow> (case close_all cs st1 of (acts', st2) \<Rightarrow> (acts @ acts', st2)))"

section \<open>The lookup as the specification words it\<close>

text \<open>
  The candidates \<open>(host, user)\<close> of a full host name, by increasing number of labels in
  the host; the connections to try, candidate by candidate and within a user in the
  order of the index; the first of them that advertises the service.
\<close>

definition partitions :: "string \<Rightarrow> (string \<times> string) list" where
  "partitions full =
     (let parts = Split full (CHR ''.'')
      in map (\<lambda>i. (Join (take i parts) ''.'', Join (drop i parts) ''.'')) [0..<length parts])"

definition candidates :: "system \<Rightarrow> string \<Rightarrow> (cid \<times> string) list" where
  "candidates st full =
     concat (map (\<lambda>(host, u). map (\<lambda>s. (s, host)) (index_at (gateway st) u)) (partitions full))"

definition lookup_first :: "system \<Rightarrow> string \<Rightarrow> uint16 \<Rightarrow> (cid \<times> string \<times> uint16) option" where
  "lookup_first st full port =
     (case find (\<lambda>(s, host). lookupService (conns st s) host port) (candidates st full) of
        None \<Rightarrow> None
      | Some (s, host) \<Rightarrow> Some (s, host, port))"

text \<open>The same list of connections to try, for any list of split points.\<close>

definition range_candidates :: "system \<Rightarrow> string list \<Rightarrow> nat list \<Rightarrow> (cid \<times> string) list" where
  "range_candidates st parts is =
     concat (map (\<lambda>i. map (\<lambda>s. (s, Join (take i parts) ''.''))
                         (index_at (gateway st) (Join (drop i parts) ''.''))) is)"

section \<open>Example values\<close>

definition ex_conn :: "string \<Rightarrow> bool \<Rightarrow> (string \<rightharpoonup> (uint16 \<rightharpoonup> bool)) \<Rightarrow> Connection" where
  "ex_conn u a svc =
     \<lparr>user = u, sessions = [], tunnels = [], services = svc, closeOnce = False, used = 0, admin = a\<rparr>"

definition ex_forward :: "string \<Rightarrow> Request" where
  "ex_forward ty =
     \<lparr>Type = ty, WantReply = True,
      Payload = [CHR 0x00, CHR 0x00, CHR 0x00, CHR 0x01, CHR ''x'', CHR 0x00, CHR 0x01, CHR 0x00, CHR 0x00]\<rparr>"

definition ex_forward_zero :: Request where
  "ex_forward_zero =
     \<lparr>Type = ''tcpip-forward'', WantReply = True,
      Payload = [CHR 0x00, CHR 0x00, CHR 0x00, CHR 0x01, CHR ''x'', CHR 0x00, CHR 0x00, CHR 0x00, CHR 0x00]\<rparr>"

definition ex_conns :: "cid \<Rightarrow> Connection" where
  "ex_conns i =
     (if i = 0 then ex_conn ''alice'' False [''api'' \<mapsto> [80 \<mapsto> True]]
      else if i = 1 then ex_conn ''alice'' True [''api'' \<mapsto> [80 \<mapsto> True]]
      else ex_conn ''api.alice'' True [[] \<mapsto> [80 \<mapsto> True]])"

definition ex_empty :: system where
  "ex_empty = \<lparr>gateway = \<lparr>sessionsIndex = Map.empty, sessionsList = []\<rparr>, conns = ex_conns\<rparr>"

definition ex_channels :: channels where
  "ex_channels = \<lparr>sys = AddSession 0 (AddSession 1 ex_empty), fresh = 7\<rparr>"

definition ex_tunnel :: "string \<Rightarrow> uint32 \<Rightarrow> tunnelData" where
  "ex_tunnel h p = \<lparr>Host = h, Port = p, OriginAddress = ''1.2.3.4'', OriginPort = 5\<rparr>"

definition ex_busy :: system where
  "ex_busy = AddSession 0 (ex_empty\<lparr>conns := (\<lambda>i. (ex_conns i)\<lparr>sessions := [3], tunnels := [4, 5]\<rparr>)\<rparr>)"

definition ex_idle :: system where
  "ex_idle = AddSession 2 (AddSession 1 (AddSession 0
       (ex_empty\<lparr>conns := (\<lambda>i. (ex_conns i)\<lparr>used := (if i = 0 then 0 else if i = 1 then 100 else 70)\<rparr>)\<rparr>)))"

section \<open>Properties\<close>

subsection \<open>Services and global requests\<close>

lemma registerService_registered:
  "lookupService c host port \<Longrightarrow> registerService c host port = (Some ErrServiceAlreadyRegistered, c)"
  by (auto simp: registerService_def lookupService_def Let_def)

lemma registerService_new:
  "\<not> lookupService c host port \<Longrightarrow>
   registerService c host port =
     (None, c\<lparr>services := (services c)(host \<mapsto> (ports_of c host)(port \<mapsto> True))\<rparr>)"
  by (cases "services c host")
     (simp_all add: registerService_def lookupService_def Let_def port_at_def ports_of_def)

lemma registerService_then_registered:
  "registerService c host port = (r, c1) \<Longrightarrow> lookupService c1 host port"
  by (cases "lookupService c host port")
     (auto simp: registerService_registered registerService_new lookupService_def port_at_def ports_of_def
        split: if_splits)

text \<open>
  C5. Calling \<open>registerService\<close> with a \<open>(host, port)\<close> that the connection already
  advertises returns \<open>ErrServiceAlreadyRegistered\<close> and leaves the connection, and so its
  services map, as it was. In particular a second registration right after any first one
  fails this way, and the service stays registered.
\<close>

theorem registerService_duplicate:
  "(lookupService c host port \<longrightarrow>
      registerService c host port = (Some ErrServiceAlreadyRegistered, c)) \<and>
   (\<forall>r c1. registerService c host port = (r, c1) \<longrightarrow>
      registerService c1 host port = (Some ErrServiceAlreadyRegistered, c1) \<and>
      lookupService c1 host port)"
  using registerService_registered registerService_then_registered by blast

theorem registerService_duplicate_witness:
  "lookupService (ex_conn ''alice'' False [''x'' \<mapsto> [80 \<mapsto> True]]) ''x'' 80 \<and>
   registerService (ex_conn ''alice'' False [''x'' \<mapsto> [80 \<mapsto> True]]) ''x'' 80 =
     (Some ErrServiceAlreadyRegistered, ex_conn ''alice'' False [''x'' \<mapsto> [80 \<mapsto> True]]) \<and>
   registerService (ex_conn ''alice'' False Map.empty) ''x'' 80 =
     (None, ex_conn ''alice'' False [''x'' \<mapsto> [80 \<mapsto> True]])"
proof -
  have l: "lookupService (ex_conn ''alice'' False [''x'' \<mapsto> [80 \<mapsto> True]]) ''x'' 80"
    by (simp add: lookupService_def ex_conn_def port_at_def ports_of_def)
  have r: "registerService (ex_conn ''alice'' False Map.empty) ''x'' 80 =
      (None, ex_conn ''alice'' False [''x'' \<mapsto> [80 \<mapsto> True]])"
    by (simp add: registerService_def ex_conn_def port_at_def ports_of_def Let_def)
  show ?thesis
    using registerService_duplicate [of "ex_conn ''alice'' False [''x'' \<mapsto> [80 \<mapsto> True]]" "''x''" 80] l r
    by simp
qed

lemma deregisterService_ok: "fst (deregisterService c host port) = None"
  by (simp add: deregisterService_def split: option.splits)

lemma deregisterService_absent:
  "\<not> lookupService (snd (deregisterService c host port)) host port"
  by (simp add: deregisterService_def lookupService_def port_at_def ports_of_def split: option.splits)

lemma deregisterService_absent_map:
  "services (snd (deregisterService c host port)) host = Some ports \<Longrightarrow> ports port = None"
  by (auto simp add: deregisterService_def split: option.splits)

lemma deregisterService_other:
  "(h, p) \<noteq> (host, port) \<Longrightarrow>
   lookupService (snd (deregisterService c host port)) h p = lookupService c h p"
  by (auto simp add: deregisterService_def lookupService_def port_at_def ports_of_def split: option.splits)

lemma request_switch_cancel:
  "Type request = ''cancel-tcpip-forward'' \<Longrightarrow> unmarshal (Payload request) = Some r \<Longrightarrow>
   request_switch unmarshal c request = (True, snd (deregisterService c (Host r) (ucast (Port r))))"
  by (simp add: request_switch_def deregisterService_def split: option.splits)

text \<open>
  C6. A \<^verbatim>\<open>cancel-tcpip-forward\<close> request whose payload decodes is answered with ok (the
  reply is sent when the request wants one, and it is never negative); afterwards
  \<open>(host, port)\<close> is absent from the services of the connection, every other service is
  as before, and \<open>deregisterService\<close> returns no error whatever was registered.
\<close>

theorem cancel_forward_ok:
  assumes "Type request = ''cancel-tcpip-forward''"
    and "unmarshal (Payload request) = Some r"
    and "handleRequest unmarshal c request = (reply, c')"
  shows "reply = (if WantReply request then Some True else None) \<and>
         \<not> lookupService c' (Host r) (ucast (Port r)) \<and>
         (\<forall>ports. services c' (Host r) = Some ports \<longrightarrow> ports (ucast (Port r)) = None) \<and>
         (\<forall>h p. (h, p) \<noteq> (Host r, ucast (Port r)) \<longrightarrow> lookupService c' h p = lookupService c h p) \<and>
         (\<forall>h p. fst (deregisterService c h p) = None)"
proof -
  from assms have c': "c' = snd (deregisterService c (Host r) (ucast (Port r)))"
    and reply: "reply = (if WantReply request then Some True else None)"
    by (auto simp: handleRequest_def request_switch_cancel)
  show ?thesis
    unfolding c' using reply
    by (auto simp: deregisterService_ok deregisterService_absent deregisterService_other
        dest: deregisterService_absent_map)
qed

theorem cancel_forward_ok_witness:
  "Type (ex_forward ''cancel-tcpip-forward'') = ''cancel-tcpip-forward'' \<and>
   unmarshalForwardRequest (Payload (ex_forward ''cancel-tcpip-forward'')) = Some \<lparr>Host = ''x'', Port = 65536\<rparr> \<and>
   fst (handleRequest unmarshalForwardRequest (ex_conn ''alice'' False [''x'' \<mapsto> [0 \<mapsto> True]])
          (ex_forward ''cancel-tcpip-forward'')) = Some True \<and>
   \<not> lookupService (snd (handleRequest unmarshalForwardRequest (ex_conn ''alice'' False [''x'' \<mapsto> [0 \<mapsto> True]])
          (ex_forward ''cancel-tcpip-forward''))) ''x'' 0 \<and>
   fst (handleRequest unmarshalForwardRequest (ex_conn ''alice'' False Map.empty)
          (ex_forward ''cancel-tcpip-forward'')) = Some True"
proof -
  have d: "unmarshalForwardRequest (Payload (ex_forward ''cancel-tcpip-forward'')) = Some \<lparr>Host = ''x'', Port = 65536\<rparr>"
    by (simp add: ex_forward_def unmarshalForwardRequest_def get_string_def get_uint32_def)
  have t: "Type (ex_forward ''cancel-tcpip-forward'') = ''cancel-tcpip-forward''"
    by (simp add: ex_forward_def)
  have w: "WantReply (ex_forward ''cancel-tcpip-forward'')"
    by (simp add: ex_forward_def)
  have z: "(65536 :: uint16) = 0"
    by simp
  show ?thesis
    using cancel_forward_ok [where request = "ex_forward ''cancel-tcpip-forward''"
          and unmarshal = unmarshalForwardRequest and r = "\<lparr>Host = ''x'', Port = 65536\<rparr>"
          and c = "ex_conn ''alice'' False [''x'' \<mapsto> [0 \<mapsto> True]]", OF t d surjective_pairing]
      cancel_forward_ok [where request = "ex_forward ''cancel-tcpip-forward''"
          and unmarshal = unmarshalForwardRequest and r = "\<lparr>Host = ''x'', Port = 65536\<rparr>"
          and c = "ex_conn ''alice'' False Map.empty", OF t d surjective_pairing] d t w z
    by simp
qed

text \<open>
  C9. A \<^verbatim>\<open>tcpip-forward\<close> request whose decoded port is 0 is answered negatively (when it
  wants a reply) and leaves the connection, and so its services map, unchanged.
\<close>

theorem forward_port_zero:
  assumes "Type request = ''tcpip-forward''"
    and "unmarshal (Payload request) = Some r"
    and "Port r = 0"
  shows "handleRequest unmarshal c request = (if WantReply request then Some False else None, c)"
  using assms by (simp add: handleRequest_def request_switch_def)

theorem forward_port_zero_witness:
  "Type ex_forward_zero = ''tcpip-forward'' \<and>
   unmarshalForwardRequest (Payload ex_forward_zero) = Some \<lparr>Host = ''x'', Port = 0\<rparr> \<and>
   handleRequest unmarshalForwardRequest (ex_conn ''alice'' False Map.empty) ex_forward_zero =
     (Some False, ex_conn ''alice'' False Map.empty)"
proof -
  have d: "unmarshalForwardRequest (Payload ex_forward_zero) = Some \<lparr>Host = ''x'', Port = 0\<rparr>"
    by (simp add: ex_forward_zero_def unmarshalForwardRequest_def get_string_def get_uint32_def)
  have t: "Type ex_forward_zero = ''tcpip-forward''"
    by (simp add: ex_forward_zero_def)
  have w: "WantReply ex_forward_zero"
    by (simp add: ex_forward_zero_def)
  show ?thesis
    using forward_port_zero [where request = ex_forward_zero and unmarshal = unmarshalForwardRequest
          and r = "\<lparr>Host = ''x'', Port = 0\<rparr>" and c = "ex_conn ''alice'' False Map.empty"] d t w
    by simp
qed

lemma ucast_mod: "(ucast (p :: uint32) :: uint16) = word_of_nat (unat p mod 65536)"
  by (simp add: unsigned_ucast_eq word_eq_iff_unsigned [where ?'a = nat] unsigned_of_nat take_bit_eq_mod)

lemma unat_ucast_mod: "unat (ucast (p :: uint32) :: uint16) = unat p mod 65536"
  by (simp add: unsigned_ucast_eq take_bit_eq_mod)

lemma request_switch_forward:
  "Type request = ''tcpip-forward'' \<Longrightarrow> unmarshal (Payload request) = Some r \<Longrightarrow> Port r \<noteq> 0 \<Longrightarrow>
   request_switch unmarshal c request =
     (case registerService c (Host r) (ucast (Port r)) of (e, c') \<Rightarrow> (e = None, c'))"
  by (auto simp: request_switch_def split: option.splits prod.splits)

text \<open>
  C10. For a \<^verbatim>\<open>tcpip-forward\<close> request with decoded 32-bit port \<open>p \<noteq> 0\<close>, the port
  handed to \<open>registerService\<close> is \<open>p mod 65536\<close>: that port is registered when it was
  not yet, and the reply follows that registration. For \<open>p = 65536\<close> the guard against
  port 0 is passed and the port registered is 0.
\<close>

theorem forward_port_truncated:
  assumes "Type request = ''tcpip-forward''"
    and "unmarshal (Payload request) = Some r"
    and "Port r \<noteq> 0"
    and "q = (word_of_nat (unat (Port r) mod 65536) :: uint16)"
  shows "unat q = unat (Port r) mod 65536 \<and>
         handleRequest unmarshal c request =
           (case registerService c (Host r) q of
              (e, c') \<Rightarrow> (if WantReply request then Some (e = None) else None, c')) \<and>
         (\<not> lookupService c (Host r) q \<longrightarrow>
            fst (request_switch unmarshal c request) \<and>
            lookupService (snd (handleRequest unmarshal c request)) (Host r) q) \<and>
         (Port r = 65536 \<longrightarrow> q = 0)"
proof -
  have q: "q = ucast (Port r)"
    using assms(4) by (simp add: ucast_mod)
  have sw: "request_switch unmarshal c request =
      (case registerService c (Host r) q of (e, c') \<Rightarrow> (e = None, c'))"
    using assms(1-3) by (simp add: request_switch_forward q)
  have hr: "handleRequest unmarshal c request =
      (case registerService c (Host r) q of
         (e, c') \<Rightarrow> (if WantReply request then Some (e = None) else None, c'))"
    by (simp add: handleRequest_def sw split: prod.splits)
  have new: "fst (request_switch unmarshal c request) \<and>
      lookupService (snd (handleRequest unmarshal c request)) (Host r) q"
    if nl: "\<not> lookupService c (Host r) q"
  proof -
    obtain c1 where r: "registerService c (Host r) q = (None, c1)"
      using registerService_new [OF nl] by blast
    then show ?thesis
      using registerService_then_registered [OF r] by (simp add: sw hr)
  qed
  have "unat q = unat (Port r) mod 65536"
    by (simp add: q unat_ucast_mod)
  moreover have "Port r = 65536 \<longrightarrow> q = 0"
    by (simp add: q)
  ultimately show ?thesis
    using hr new by blast
qed

theorem forward_port_truncated_witness:
  "Type (ex_forward ''tcpip-forward'') = ''tcpip-forward'' \<and>
   unmarshalForwardRequest (Payload (ex_forward ''tcpip-forward'')) = Some \<lparr>Host = ''x'', Port = 65536\<rparr> \<and>
   (65536 :: uint32) \<noteq> 0 \<and>
   handleRequest unmarshalForwardRequest (ex_conn ''alice'' False Map.empty) (ex_forward ''tcpip-forward'') =
     (Some True, ex_conn ''alice'' False [''x'' \<mapsto> [0 \<mapsto> True]]) \<and>
   lookupService (snd (handleRequest unmarshalForwardRequest (ex_conn ''alice'' False Map.empty)
                        (ex_forward ''tcpip-forward''))) ''x'' 0"
proof -
  have d: "unmarshalForwardRequest (Payload (ex_forward ''tcpip-forward'')) = Some \<lparr>Host = ''x'', Port = 65536\<rparr>"
    by (simp add: ex_forward_def unmarshalForwardRequest_def get_string_def get_uint32_def)
  have t: "Type (ex_forward ''tcpip-forward'') = ''tcpip-forward''"
    by (simp add: ex_forward_def)
  have n: "Port \<lparr>Host = ''x'', Port = 65536\<rparr> \<noteq> 0"
    by simp
  have w: "WantReply (ex_forward ''tcpip-forward'')"
    by (simp add: ex_forward_def)
  have r: "registerService (ex_conn ''alice'' False Map.empty) ''x'' 0 =
      (None, ex_conn ''alice'' False [''x'' \<mapsto> [0 \<mapsto> True]])"
    by (simp add: registerService_def ex_conn_def port_at_def ports_of_def Let_def)
  have l: "\<not> lookupService (ex_conn ''alice'' False Map.empty) ''x'' 0"
    by (simp add: lookupService_def ex_conn_def)
  show ?thesis
    using forward_port_truncated [where request = "ex_forward ''tcpip-forward''"
          and unmarshal = unmarshalForwardRequest and r = "\<lparr>Host = ''x'', Port = 65536\<rparr>"
          and c = "ex_conn ''alice'' False Map.empty" and q = 0] d t w r l
    by (simp add: lookupService_def ex_conn_def port_at_def ports_of_def)
qed

subsection \<open>Splitting and joining\<close>

lemma Join_Split: "Join (Split s sep) [sep] = s"
proof (induction s)
  case Nil
  then show ?case by simp
next
  case (Cons c cs)
  then show ?case
    by (cases "Split cs sep"; cases "tl (Split cs sep)") (auto split: list.splits)
qed

lemma Split_not_Nil: "Split s sep \<noteq> []"
  by (induction s) (auto split: list.splits)

lemma Split_append: "Split (h @ sep # u) sep = Split h sep @ Split u sep"
proof (induction h)
  case Nil
  then show ?case by simp
next
  case (Cons c cs)
  then show ?case
    using Split_not_Nil [of cs sep] by (auto split: list.splits)
qed

lemma partitions_nth:
  "partitions full =
     map (\<lambda>i. (Join (take i (Split full (CHR ''.''))) ''.'', Join (drop i (Split full (CHR ''.''))) ''.''))
         [0..<length (Split full (CHR ''.''))]"
  by (simp add: partitions_def Let_def)

lemma partition_host_user:
  "(host, u) \<in> set (partitions (host @ ''.'' @ u))"
proof -
  let ?hp = "Split host (CHR ''.'')" and ?up = "Split u (CHR ''.'')"
  have parts: "Split (host @ ''.'' @ u) (CHR ''.'') = ?hp @ ?up"
    using Split_append [of host "CHR ''.''" u] by simp
  have lt: "length ?hp < length (?hp @ ?up)"
    using Split_not_Nil [of u "CHR ''.''"] by simp
  have "Join (take (length ?hp) (?hp @ ?up)) ''.'' = host"
    and "Join (drop (length ?hp) (?hp @ ?up)) ''.'' = u"
    using Join_Split [of host "CHR ''.''"] Join_Split [of u "CHR ''.''"] by simp_all
  then have "(host, u) = (\<lambda>i. (Join (take i (?hp @ ?up)) ''.'', Join (drop i (?hp @ ?up)) ''.'')) (length ?hp)"
    by simp
  moreover have "length ?hp \<in> set [0..<length (?hp @ ?up)]"
    using lt by simp
  ultimately show ?thesis
    unfolding partitions_nth parts by (metis (no_types, lifting) image_eqI set_map)
qed

subsection \<open>The lookup\<close>

lemma scan_sessions_find:
  "scan_sessions cs ss host port = find (\<lambda>s. lookupService (cs s) host port) ss"
  by (induction ss) auto

lemma find_append_case:
  "find P (xs @ ys) = (case find P xs of None \<Rightarrow> find P ys | Some x \<Rightarrow> Some x)"
  by (induction xs) auto

lemma find_map_pair:
  "find (\<lambda>(s, h). P s h) (map (\<lambda>s. (s, host)) ss) = map_option (\<lambda>s. (s, host)) (find (\<lambda>s. P s host) ss)"
  by (induction ss) auto

lemma lookup_range_find:
  "lookup_range st parts port is =
     (case find (\<lambda>(s, host). lookupService (conns st s) host port) (range_candidates st parts is) of
        None \<Rightarrow> None
      | Some (s, host) \<Rightarrow> Some (s, host, port))"
proof (induction "is")
  case Nil
  then show ?case by (simp add: range_candidates_def)
next
  case (Cons i "is")
  have rc: "range_candidates st parts (i # is) =
      map (\<lambda>s. (s, Join (take i parts) ''.'')) (index_at (gateway st) (Join (drop i parts) ''.''))
      @ range_candidates st parts is"
    by (simp add: range_candidates_def)
  show ?case
    unfolding rc find_append_case find_map_pair
    by (simp add: Let_def scan_sessions_find Cons.IH split: option.splits)
qed

lemma candidates_range:
  "candidates st full =
     range_candidates st (Split full (CHR ''.'')) [0..<length (Split full (CHR ''.''))]"
  by (simp add: candidates_def partitions_def range_candidates_def Let_def comp_def)

lemma Lookup_first: "LookupSessionService st full port = lookup_first st full port"
  by (simp add: LookupSessionService_def lookup_first_def Let_def lookup_range_find candidates_range)

lemma index_at_AddSession:
  "index_at (gateway (AddSession s st)) u =
     (if u = user (conns st s) then s # index_at (gateway st) u else index_at (gateway st) u)"
  by (simp add: AddSession_def index_at_def Let_def)

lemma candidates_mem:
  "(d, h) \<in> set (candidates st full) \<longleftrightarrow>
     (\<exists>u. (h, u) \<in> set (partitions full) \<and> d \<in> set (index_at (gateway st) u))"
  by (auto simp: candidates_def)

lemma lookup_first_Some:
  "lookup_first st full port = Some (d, h, p) \<Longrightarrow>
   p = port \<and> (d, h) \<in> set (candidates st full) \<and> lookupService (conns st d) h port"
  by (auto simp: lookup_first_def find_Some_iff split: option.splits dest: nth_mem)

lemma lookup_first_None:
  "lookup_first st full port = None \<Longrightarrow> (d, h) \<in> set (candidates st full) \<Longrightarrow>
   \<not> lookupService (conns st d) h port"
  by (auto simp: lookup_first_def find_None_iff split: option.splits)

lemma Lookup_Some:
  "LookupSessionService st full port = Some (d, h, p) \<Longrightarrow>
   p = port \<and> lookupService (conns st d) h port"
  using lookup_first_Some [of st full port d h p] by (simp add: Lookup_first)

text \<open>
  C4. The lookup returns the first connection advertising \<open>(host, port)\<close> in this order
  of trial: the partitions of the full name by increasing number of labels in the host
  (so the longest user comes first), and within a user the connections in the order of
  the index, where \<open>AddSession\<close> puts the newest connection in front.
\<close>

theorem lookup_order:
  "LookupSessionService st full port = lookup_first st full port \<and>
   partitions full =
     map (\<lambda>i. (Join (take i (Split full (CHR ''.''))) ''.'', Join (drop i (Split full (CHR ''.''))) ''.''))
         [0..<length (Split full (CHR ''.''))] \<and>
   index_at (gateway (AddSession s st)) (user (conns st s)) = s # index_at (gateway st) (user (conns st s)) \<and>
   sessionsList (gateway (AddSession s st)) = s # sessionsList (gateway st)"
  by (simp add: Lookup_first index_at_AddSession partitions_nth)
     (simp add: AddSession_def Let_def)

theorem lookup_order_witness:
  "LookupSessionService (AddSession 1 (AddSession 0 ex_empty)) ''api.alice'' 80 = Some (1, ''api'', 80) \<and>
   LookupSessionService (AddSession 0 (AddSession 2 ex_empty)) ''api.alice'' 80 = Some (2, [], 80) \<and>
   partitions ''api.bob.team'' = [([], ''api.bob.team''), (''api'', ''bob.team''), (''api.bob'', ''team'')]"
proof -
  have a: "lookup_first (AddSession 1 (AddSession 0 ex_empty)) ''api.alice'' 80 = Some (1, ''api'', 80)"
    by code_simp
  have b: "lookup_first (AddSession 0 (AddSession 2 ex_empty)) ''api.alice'' 80 = Some (2, [], 80)"
    by code_simp
  have c: "map (\<lambda>i. (Join (take i (Split ''api.bob.team'' (CHR ''.''))) ''.'',
                     Join (drop i (Split ''api.bob.team'' (CHR ''.''))) ''.''))
             [0..<length (Split ''api.bob.team'' (CHR ''.''))] =
           [([], ''api.bob.team''), (''api'', ''bob.team''), (''api.bob'', ''team'')]"
    by code_simp
  show ?thesis
    using lookup_order [of "AddSession 1 (AddSession 0 ex_empty)" "''api.alice''" 80 0]
      lookup_order [of "AddSession 0 (AddSession 2 ex_empty)" "''api.bob.team''" 80 0]
      lookup_order [of "AddSession 0 (AddSession 2 ex_empty)" "''api.alice''" 80 0] a b c
    by simp
qed

text \<open>
  C1, amended. The lookup splits the full name into host first, user last. For a
  connection \<open>s\<close> that the per-user index holds under its own user and a
  \<open>(host, port)\<close> it advertises, the lookup of \<open>host + "." + user\<close> (for the empty user:
  \<open>host + "."\<close>) at \<open>port\<close> returns a connection \<open>d\<close> with a host \<open>h\<close> and the port
  asked for, where \<open>d\<close> advertises \<open>(h, port)\<close> and is indexed under a user \<open>u\<close> such that
  \<open>(h, u)\<close> is one of the partitions of the same full name; it is \<open>s\<close> with \<open>host\<close>
  when no other candidate advertises.
\<close>

theorem lookup_finds_advertised:
  assumes reg: "s \<in> set (index_at (gateway st) (user (conns st s)))"
    and adv: "lookupService (conns st s) host port"
    and full: "full = host @ ''.'' @ user (conns st s)"
  shows "\<exists>d h u. LookupSessionService st full port = Some (d, h, port) \<and>
           lookupService (conns st d) h port \<and>
           d \<in> set (index_at (gateway st) u) \<and> (h, u) \<in> set (partitions full) \<and>
           ((\<forall>d' h'. (d', h') \<in> set (candidates st full) \<and> lookupService (conns st d') h' port
                \<longrightarrow> (d', h') = (s, host)) \<longrightarrow> (d, h) = (s, host))"
proof -
  have mem: "(s, host) \<in> set (candidates st full)"
    unfolding candidates_mem full using reg partition_host_user by blast
  obtain d h p where hit: "lookup_first st full port = Some (d, h, p)"
    using lookup_first_None [OF _ mem] adv by (cases "lookup_first st full port") auto
  from lookup_first_Some [OF hit]
  have p: "p = port" and c: "(d, h) \<in> set (candidates st full)"
    and l: "lookupService (conns st d) h port"
    by simp_all
  from c obtain u where "(h, u) \<in> set (partitions full)" "d \<in> set (index_at (gateway st) u)"
    unfolding candidates_mem by blast
  then show ?thesis
    using hit p c l by (auto simp: Lookup_first)
qed

theorem lookup_finds_advertised_witness:
  "0 \<in> set (index_at (gateway (AddSession 0 ex_empty)) (user (conns (AddSession 0 ex_empty) 0))) \<and>
   lookupService (conns (AddSession 0 ex_empty) 0) ''api'' 80 \<and>
   ''api.alice'' = ''api'' @ ''.'' @ user (conns (AddSession 0 ex_empty) 0) \<and>
   LookupSessionService (AddSession 0 ex_empty) ''api.alice'' 80 = Some (0, ''api'', 80)"
proof -
  have h1: "0 \<in> set (index_at (gateway (AddSession 0 ex_empty)) (user (conns (AddSession 0 ex_empty) 0)))"
    by code_simp
  have h2: "lookupService (conns (AddSession 0 ex_empty) 0) ''api'' 80"
    by code_simp
  have h3: "''api.alice'' = ''api'' @ ''.'' @ user (conns (AddSession 0 ex_empty) 0)"
    by code_simp
  have c: "candidates (AddSession 0 ex_empty) ''api.alice'' = [(0, ''api'')]"
    by code_simp
  show ?thesis
    using lookup_finds_advertised [OF h1 h2 h3] h1 h2 h3 c by auto
qed

text \<open>
  The lookup of \<open>user + "." + host\<close> misses the only connection, and the lookup of
  \<open>host + "." + user\<close> can return a connection of a longer user name that advertises
  another host.
\<close>

theorem lookup_user_first_counterexample:
  "0 \<in> set (sessionsList (gateway (AddSession 0 ex_empty))) \<and>
   0 \<in> set (index_at (gateway (AddSession 0 ex_empty)) (user (conns (AddSession 0 ex_empty) 0))) \<and>
   lookupService (conns (AddSession 0 ex_empty) 0) ''api'' 80 \<and>
   LookupSessionService (AddSession 0 ex_empty)
     (user (conns (AddSession 0 ex_empty) 0) @ ''.'' @ ''api'') 80 = None \<and>
   LookupSessionService (AddSession 2 (AddSession 0 ex_empty))
     (''api'' @ ''.'' @ user (conns (AddSession 2 (AddSession 0 ex_empty)) 0)) 80 = Some (2, [], 80) \<and>
   \<not> lookupService (conns (AddSession 2 (AddSession 0 ex_empty)) 2) ''api'' 80"
  by code_simp

subsection \<open>Channels\<close>

lemma handleChannel_direct:
  "handleChannel unmarshal marshal openOk acceptOk c ''direct-tcpip'' extraData w =
     (case handleTunnelChannel unmarshal marshal openOk acceptOk c extraData w of
        ((ok, rejection, message), acts, w') \<Rightarrow>
          if ok then ((ok, rejection, message), acts, w')
          else ((ok, rejection, message),
                acts @ (if acceptOk then [AcceptChannel, ChannelClose] else [AcceptChannel]), w'))"
  by (simp add: handleChannel_def)

lemma handleTunnelChannel_not_admin:
  assumes "\<not> admin (conns (sys w) c)" and "unmarshal extraData = Some data"
  shows "handleTunnelChannel unmarshal marshal openOk acceptOk c extraData w =
     (if LookupSessionService (sys w) (Host data) (ucast (Port data)) = None
      then ((False, ConnectionFailed, ''service not found or not online''), [], w)
      else ((False, Prohibited, ''permission denied''), [], w))"
  using assms by (auto simp: handleTunnelChannel_def split: option.splits)

lemma handleTunnelChannel_admin:
  assumes "admin (conns (sys w) c)" and "unmarshal extraData = Some data"
    and "LookupSessionService (sys w) (Host data) (ucast (Port data)) = Some (target, host, port)"
    and "payload = marshal \<lparr>Host = host, Port = ucast port,
                           OriginAddress = OriginAddress data, OriginPort = OriginPort data\<rparr>"
  shows "handleTunnelChannel unmarshal marshal openOk acceptOk c extraData w =
     (if \<not> openOk
      then ((False, ConnectionFailed, ''failed to connect''),
            [OpenChannel target ''forwarded-tcpip'' payload], w)
      else if \<not> acceptOk
      then ((True, NoReason, []),
            [OpenChannel target ''forwarded-tcpip'' payload, AcceptChannel, TunnelClose (fresh w)],
            on_conn target (addTunnel (fresh w)) (w\<lparr>fresh := Suc (fresh w)\<rparr>))
      else ((True, NoReason, []),
            [OpenChannel target ''forwarded-tcpip'' payload, AcceptChannel],
            on_conn c (addTunnel (Suc (fresh w)))
              (on_conn target (addTunnel (fresh w)) (w\<lparr>fresh := Suc (fresh w)\<rparr>)
                 \<lparr>fresh := Suc (Suc (fresh w))\<rparr>)))"
  using assms by (simp add: handleTunnelChannel_def openTunnel_def Let_def on_conn_def)

text \<open>
  C2, amended. A \<^verbatim>\<open>direct-tcpip\<close> channel opened by a connection without the admin flag,
  with extra data that decodes, is never taken: it is rejected with \<open>Prohibited\<close> when
  the lookup finds a service, and with \<open>ConnectionFailed\<close> when it finds none (the lookup
  comes before the check of the flag). The rejection accepts the channel and closes it;
  the state is unchanged.
\<close>

theorem direct_tcpip_not_admin:
  assumes "\<not> admin (conns (sys w) c)" and "unmarshal extraData = Some data"
  shows "handleChannel unmarshal marshal openOk acceptOk c ''direct-tcpip'' extraData w =
     ((False,
       if LookupSessionService (sys w) (Host data) (ucast (Port data)) = None
       then (ConnectionFailed, ''service not found or not online'')
       else (Prohibited, ''permission denied'')),
      if acceptOk then [AcceptChannel, ChannelClose] else [AcceptChannel], w)"
  by (simp add: handleChannel_direct
      handleTunnelChannel_not_admin [where unmarshal = unmarshal and extraData = extraData and data = data,
        OF assms])

theorem direct_tcpip_not_admin_witness:
  "\<not> admin (conns (sys ex_channels) 0) \<and>
   unmarshalTunnelData (marshalTunnelData (ex_tunnel ''api.alice'' 80)) = Some (ex_tunnel ''api.alice'' 80) \<and>
   LookupSessionService (sys ex_channels) ''api.alice'' 80 = Some (0, ''api'', 80) \<and>
   fst (handleChannel unmarshalTunnelData marshalTunnelData True True 0 ''direct-tcpip''
          (marshalTunnelData (ex_tunnel ''api.alice'' 80)) ex_channels) =
     (False, Prohibited, ''permission denied'')"
proof -
  have h1: "\<not> admin (conns (sys ex_channels) 0)"
    by code_simp
  have h2: "unmarshalTunnelData (marshalTunnelData (ex_tunnel ''api.alice'' 80)) = Some (ex_tunnel ''api.alice'' 80)"
    by code_simp
  have l: "LookupSessionService (sys ex_channels) (Host (ex_tunnel ''api.alice'' 80))
      (ucast (Port (ex_tunnel ''api.alice'' 80))) = Some (0, ''api'', 80)"
    by code_simp
  have l': "LookupSessionService (sys ex_channels) ''api.alice'' 80 = Some (0, ''api'', 80)"
    by code_simp
  show ?thesis
    using direct_tcpip_not_admin [where unmarshal = unmarshalTunnelData and marshal = marshalTunnelData
        and extraData = "marshalTunnelData (ex_tunnel ''api.alice'' 80)" and data = "ex_tunnel ''api.alice'' 80"
        and c = 0 and w = ex_channels and openOk = True and acceptOk = True, OF h1 h2] h1 h2 l l'
    by simp
qed

text \<open>
  Without a matching service a connection without the admin flag is rejected with
  \<open>ConnectionFailed\<close>, not with \<open>Prohibited\<close>.
\<close>

theorem direct_tcpip_not_admin_counterexample:
  "\<not> admin (conns (sys ex_channels) 0) \<and>
   unmarshalTunnelData (marshalTunnelData (ex_tunnel ''nope'' 1)) = Some (ex_tunnel ''nope'' 1) \<and>
   fst (handleChannel unmarshalTunnelData marshalTunnelData True True 0 ''direct-tcpip''
          (marshalTunnelData (ex_tunnel ''nope'' 1)) ex_channels) =
     (False, ConnectionFailed, ''service not found or not online'') \<and>
   ConnectionFailed \<noteq> Prohibited"
  by code_simp

text \<open>
  C3. When a connection with the admin flag opens \<^verbatim>\<open>direct-tcpip\<close> and the lookup
  returns \<open>(target, host, port)\<close>, the first action of the gateway is to open a
  \<^verbatim>\<open>forwarded-tcpip\<close> channel on \<open>target\<close>; its payload is the tunnel data with the host
  and port that \<open>target\<close> advertises and the origin address and origin port of the
  request, and no other channel is opened. When the target takes the channel, the request
  is not rejected and the target holds the new tunnel.
\<close>

theorem direct_tcpip_forwarded:
  assumes "admin (conns (sys w) c)" and "unmarshal extraData = Some data"
    and "LookupSessionService (sys w) (Host data) (ucast (Port data)) = Some (target, host, port)"
    and "handleChannel unmarshal marshal openOk acceptOk c ''direct-tcpip'' extraData w = (res, acts, w')"
  shows "lookupService (conns (sys w) target) host port \<and>
         (\<exists>rest. acts = OpenChannel target ''forwarded-tcpip''
                           (marshal \<lparr>Host = host, Port = ucast port,
                                     OriginAddress = OriginAddress data,
                                     OriginPort = OriginPort data\<rparr>) # rest \<and>
                 (\<forall>d t b. OpenChannel d t b \<notin> set rest)) \<and>
         (openOk \<longrightarrow> fst res \<and> fresh w \<in> set (tunnels (conns (sys w') target))) \<and>
         (\<not> openOk \<longrightarrow> res = (False, ConnectionFailed, ''failed to connect''))"
proof -
  note h = handleTunnelChannel_admin [where unmarshal = unmarshal and extraData = extraData
      and data = data and marshal = marshal and openOk = openOk and acceptOk = acceptOk,
      OF assms(1-3) refl]
  have adv: "lookupService (conns (sys w) target) host port"
    using Lookup_Some [OF assms(3)] by simp
  let ?open = "OpenChannel target ''forwarded-tcpip''
      (marshal \<lparr>Host = host, Port = ucast port,
                OriginAddress = OriginAddress data, OriginPort = OriginPort data\<rparr>)"
  have r: "(res, acts, w') =
     (if \<not> openOk
      then ((False, ConnectionFailed, ''failed to connect''),
            ?open # (if acceptOk then [AcceptChannel, ChannelClose] else [AcceptChannel]), w)
      else if \<not> acceptOk
      then ((True, NoReason, []), ?open # [AcceptChannel, TunnelClose (fresh w)],
            on_conn target (addTunnel (fresh w)) (w\<lparr>fresh := Suc (fresh w)\<rparr>))
      else ((True, NoReason, []), ?open # [AcceptChannel],
            on_conn c (addTunnel (Suc (fresh w)))
              (on_conn target (addTunnel (fresh w)) (w\<lparr>fresh := Suc (fresh w)\<rparr>)
                 \<lparr>fresh := Suc (Suc (fresh w))\<rparr>)))"
    unfolding assms(4) [symmetric] handleChannel_direct h by simp
  show ?thesis
  proof (cases openOk)
    case False
    then show ?thesis
      using r adv by auto
  next
    case True
    then show ?thesis
      using r adv by (cases acceptOk) (auto simp: on_conn_def addTunnel_def)
  qed
qed

theorem direct_tcpip_forwarded_witness:
  "admin (conns (sys ex_channels) 1) \<and>
   unmarshalTunnelData (marshalTunnelData (ex_tunnel ''api.alice'' 80)) = Some (ex_tunnel ''api.alice'' 80) \<and>
   LookupSessionService (sys ex_channels) ''api.alice'' 80 = Some (0, ''api'', 80) \<and>
   fst (snd (handleChannel unmarshalTunnelData marshalTunnelData True True 1 ''direct-tcpip''
          (marshalTunnelData (ex_tunnel ''api.alice'' 80)) ex_channels)) =
     [OpenChannel 0 ''forwarded-tcpip'' (marshalTunnelData (ex_tunnel ''api'' 80)), AcceptChannel] \<and>
   7 \<in> set (tunnels (conns (sys (snd (snd (handleChannel unmarshalTunnelData marshalTunnelData True True 1
          ''direct-tcpip'' (marshalTunnelData (ex_tunnel ''api.alice'' 80)) ex_channels)))) 0)) \<and>
   fst (handleChannel unmarshalTunnelData marshalTunnelData False True 1 ''direct-tcpip''
          (marshalTunnelData (ex_tunnel ''api.alice'' 80)) ex_channels) =
     (False, ConnectionFailed, ''failed to connect'')"
proof -
  have h1: "admin (conns (sys ex_channels) 1)"
    by code_simp
  have h2: "unmarshalTunnelData (marshalTunnelData (ex_tunnel ''api.alice'' 80)) = Some (ex_tunnel ''api.alice'' 80)"
    by code_simp
  have l: "LookupSessionService (sys ex_channels) (Host (ex_tunnel ''api.alice'' 80))
      (ucast (Port (ex_tunnel ''api.alice'' 80))) = Some (0, ''api'', 80)"
    by code_simp
  have l': "LookupSessionService (sys ex_channels) ''api.alice'' 80 = Some (0, ''api'', 80)"
    by code_simp
  have a: "fst (snd (handleChannel unmarshalTunnelData marshalTunnelData True True 1 ''direct-tcpip''
          (marshalTunnelData (ex_tunnel ''api.alice'' 80)) ex_channels)) =
     [OpenChannel 0 ''forwarded-tcpip'' (marshalTunnelData (ex_tunnel ''api'' 80)), AcceptChannel]"
    by code_simp
  have f: "fresh ex_channels = 7"
    by code_simp
  obtain res acts w' where r: "handleChannel unmarshalTunnelData marshalTunnelData True True 1 ''direct-tcpip''
          (marshalTunnelData (ex_tunnel ''api.alice'' 80)) ex_channels = (res, acts, w')"
    by (metis prod.collapse)
  obtain res2 acts2 w2 where r2: "handleChannel unmarshalTunnelData marshalTunnelData False True 1 ''direct-tcpip''
          (marshalTunnelData (ex_tunnel ''api.alice'' 80)) ex_channels = (res2, acts2, w2)"
    by (metis prod.collapse)
  show ?thesis
    using direct_tcpip_forwarded [where unmarshal = unmarshalTunnelData and marshal = marshalTunnelData
        and extraData = "marshalTunnelData (ex_tunnel ''api.alice'' 80)" and data = "ex_tunnel ''api.alice'' 80"
        and c = 1 and w = ex_channels and openOk = True and acceptOk = True
        and target = 0 and host = "''api''" and port = 80, OF h1 h2 l r]
      direct_tcpip_forwarded [where unmarshal = unmarshalTunnelData and marshal = marshalTunnelData
        and extraData = "marshalTunnelData (ex_tunnel ''api.alice'' 80)" and data = "ex_tunnel ''api.alice'' 80"
        and c = 1 and w = ex_channels and openOk = False and acceptOk = True
        and target = 0 and host = "''api''" and port = 80, OF h1 h2 l r2] h1 h2 l' a f
    unfolding r r2 by simp
qed

subsection \<open>Closing\<close>

lemma DeleteSession_conns [simp]: "conns (DeleteSession s st) = conns st"
  by (simp add: DeleteSession_def Let_def)

lemma DeleteSession_list [simp]:
  "sessionsList (gateway (DeleteSession s st)) = filter (\<lambda>x. x \<noteq> s) (sessionsList (gateway st))"
  by (simp add: DeleteSession_def Let_def)

lemma DeleteSession_index:
  "index_at (gateway (DeleteSession s st)) u =
     (if u = user (conns st s) then filter (\<lambda>x. x \<noteq> s) (index_at (gateway st) u)
      else index_at (gateway st) u)"
  by (simp add: DeleteSession_def Let_def index_at_def)

lemma DeleteSession_index_mem:
  "d \<in> set (index_at (gateway (DeleteSession s st)) u) \<longleftrightarrow>
     d \<in> set (index_at (gateway st) u) \<and> (u = user (conns st s) \<longrightarrow> d \<noteq> s)"
  by (auto simp: DeleteSession_index)

lemma Close_closed: "closeOnce (conns st c) \<Longrightarrow> Close c st = ([], st)"
  by (simp add: Close_def)

lemma Close_open:
  "\<not> closeOnce (conns st c) \<Longrightarrow>
   Close c st =
     (calls [Deregister c] (mark_closed c st) @ teardown c (DeleteSession c (mark_closed c st)),
      DeleteSession c (mark_closed c st))"
  by (simp add: Close_def Let_def)

lemma mark_closed_simps [simp]:
  "gateway (mark_closed c st) = gateway st"
  "conns (mark_closed c st) d = (if d = c then (conns st c)\<lparr>closeOnce := True\<rparr> else conns st d)"
  by (simp_all add: mark_closed_def)

lemma Close_used: "used (conns (snd (Close c st)) d) = used (conns st d)"
  by (cases "closeOnce (conns st c)") (simp_all add: Close_closed Close_open)

lemma Close_user: "user (conns (snd (Close c st)) d) = user (conns st d)"
  by (cases "closeOnce (conns st c)") (simp_all add: Close_closed Close_open)

lemma Close_other: "d \<noteq> c \<Longrightarrow> conns (snd (Close c st)) d = conns st d"
  by (cases "closeOnce (conns st c)") (simp_all add: Close_closed Close_open)

lemma Close_closeOnce:
  "closeOnce (conns (snd (Close c st)) d) \<longleftrightarrow> d = c \<or> closeOnce (conns st d)"
  by (cases "closeOnce (conns st c)") (auto simp: Close_closed Close_open)

lemma Close_list_other:
  "d \<noteq> c \<Longrightarrow> d \<in> set (sessionsList (gateway (snd (Close c st)))) \<longleftrightarrow> d \<in> set (sessionsList (gateway st))"
  by (cases "closeOnce (conns st c)") (simp_all add: Close_closed Close_open)

lemma Close_index_other:
  "d \<noteq> c \<Longrightarrow> d \<in> set (index_at (gateway (snd (Close c st))) u) \<longleftrightarrow> d \<in> set (index_at (gateway st) u)"
  by (cases "closeOnce (conns st c)") (auto simp: Close_closed Close_open DeleteSession_index_mem)

lemma Close_list_gone:
  "d \<notin> set (sessionsList (gateway st)) \<Longrightarrow> d \<notin> set (sessionsList (gateway (snd (Close c st))))"
  by (cases "closeOnce (conns st c)") (simp_all add: Close_closed Close_open)

lemma Close_index_gone:
  "d \<notin> set (index_at (gateway st) u) \<Longrightarrow> d \<notin> set (index_at (gateway (snd (Close c st))) u)"
  by (cases "closeOnce (conns st c)") (simp_all add: Close_closed Close_open DeleteSession_index_mem)

lemma Close_removes:
  "\<not> closeOnce (conns st c) \<Longrightarrow>
   c \<notin> set (sessionsList (gateway (snd (Close c st)))) \<and>
   c \<notin> set (index_at (gateway (snd (Close c st))) (user (conns st c)))"
  by (simp add: Close_open DeleteSession_index_mem)

lemma Close_trace:
  "\<not> closeOnce (conns st c) \<Longrightarrow>
   fst (Close c st) =
     (Deregister c, gateway st) #
     map (\<lambda>a. (a, gateway (snd (Close c st))))
       (map SessionClose (sessions (conns st c)) @ map TunnelClose (tunnels (conns st c)) @ [ConnClose c])"
  by (simp add: Close_open teardown_def calls_def)

lemma Close_ConnClose:
  "ConnClose d \<in> fst ` set (fst (Close c st)) \<longleftrightarrow> d = c \<and> \<not> closeOnce (conns st c)"
  by (cases "closeOnce (conns st c)") (auto simp: Close_closed Close_trace)

text \<open>
  A connection is indexed under its own user only: \<open>AddSession\<close> and \<open>DeleteSession\<close>
  keep it so.
\<close>

lemma AddSession_conns: "conns (AddSession s st) = conns st"
  by (simp add: AddSession_def Let_def)

lemma AddSession_index_own_user:
  assumes "\<forall>d u. d \<in> set (index_at (gateway st) u) \<longrightarrow> u = user (conns st d)"
    and "c \<in> set (index_at (gateway (AddSession s st)) u)"
  shows "u = user (conns (AddSession s st) c)"
  using assms by (auto simp: index_at_AddSession AddSession_conns split: if_splits)

lemma DeleteSession_index_own_user:
  assumes "\<forall>d u. d \<in> set (index_at (gateway st) u) \<longrightarrow> u = user (conns st d)"
    and "c \<in> set (index_at (gateway (DeleteSession s st)) u)"
  shows "u = user (conns (DeleteSession s st) c)"
  using assms by (auto simp: DeleteSession_index_mem)

text \<open>
  C7. After any call of \<open>Close\<close>, a further call does nothing. A first call takes the
  connection out of the gateway's list and out of the index of its user (so out of the whole
  index, when it was indexed under its own user only). Its record begins with the call that
  takes the connection out; the closing of each session, of each tunnel and of the
  transport follows, and each of these calls is made with a registry that holds the
  connection neither in the list nor in the index.
\<close>

theorem Close_once:
  assumes "Close c st = (acts, st')"
  shows "Close c st' = ([], st') \<and>
         (\<not> closeOnce (conns st c) \<longrightarrow>
            c \<notin> set (sessionsList (gateway st')) \<and>
            c \<notin> set (index_at (gateway st') (user (conns st c))) \<and>
            ((\<forall>u. c \<in> set (index_at (gateway st) u) \<longrightarrow> u = user (conns st c)) \<longrightarrow>
               (\<forall>u. c \<notin> set (index_at (gateway st') u))) \<and>
            acts = (Deregister c, gateway st) #
                   map (\<lambda>a. (a, gateway st'))
                     (map SessionClose (sessions (conns st c)) @ map TunnelClose (tunnels (conns st c))
                      @ [ConnClose c]) \<and>
            (\<forall>a g. (a, g) \<in> set acts \<and> a \<noteq> Deregister c \<longrightarrow>
               c \<notin> set (sessionsList g) \<and> c \<notin> set (index_at g (user (conns st c)))))"
proof -
  have st': "st' = snd (Close c st)" and acts: "acts = fst (Close c st)"
    using assms by simp_all
  have "closeOnce (conns st' c)"
    unfolding st' by (simp add: Close_closeOnce)
  then have again: "Close c st' = ([], st')"
    by (rule Close_closed)
  have first: "c \<notin> set (sessionsList (gateway st')) \<and>
      c \<notin> set (index_at (gateway st') (user (conns st c))) \<and>
      ((\<forall>u. c \<in> set (index_at (gateway st) u) \<longrightarrow> u = user (conns st c)) \<longrightarrow>
         (\<forall>u. c \<notin> set (index_at (gateway st') u))) \<and>
      acts = (Deregister c, gateway st) #
             map (\<lambda>a. (a, gateway st'))
               (map SessionClose (sessions (conns st c)) @ map TunnelClose (tunnels (conns st c))
                @ [ConnClose c]) \<and>
      (\<forall>a g. (a, g) \<in> set acts \<and> a \<noteq> Deregister c \<longrightarrow>
         c \<notin> set (sessionsList g) \<and> c \<notin> set (index_at g (user (conns st c))))"
    if op: "\<not> closeOnce (conns st c)"
  proof -
    have gone: "c \<notin> set (sessionsList (gateway st'))"
      "c \<notin> set (index_at (gateway st') (user (conns st c)))"
      unfolding st' using Close_removes [OF op] by simp_all
    have all: "\<forall>u. c \<notin> set (index_at (gateway st') u)"
      if "\<forall>u. c \<in> set (index_at (gateway st) u) \<longrightarrow> u = user (conns st c)"
      using that gone(2) unfolding st' Close_open [OF op]
      by (auto simp: DeleteSession_index_mem)
    have tr: "acts = (Deregister c, gateway st) #
             map (\<lambda>a. (a, gateway st'))
               (map SessionClose (sessions (conns st c)) @ map TunnelClose (tunnels (conns st c))
                @ [ConnClose c])"
      unfolding acts st' by (rule Close_trace [OF op])
    have "\<forall>a g. (a, g) \<in> set acts \<and> a \<noteq> Deregister c \<longrightarrow> g = gateway st'"
      unfolding tr by auto
    then show ?thesis
      using gone all tr by blast
  qed
  show ?thesis
    using again first by blast
qed

theorem Close_once_witness:
  "\<not> closeOnce (conns ex_busy 0) \<and> 0 \<in> set (sessionsList (gateway ex_busy)) \<and>
   map fst (fst (Close 0 ex_busy)) =
     [Deregister 0, SessionClose 3, TunnelClose 4, TunnelClose 5, ConnClose 0] \<and>
   map (\<lambda>(a, g). 0 \<in> set (sessionsList g)) (fst (Close 0 ex_busy)) = [True, False, False, False, False] \<and>
   map (\<lambda>(a, g). 0 \<in> set (index_at g ''alice'')) (fst (Close 0 ex_busy)) = [True, False, False, False, False] \<and>
   0 \<notin> set (sessionsList (gateway (snd (Close 0 ex_busy)))) \<and>
   (\<forall>u. 0 \<notin> set (index_at (gateway (snd (Close 0 ex_busy))) u)) \<and>
   Close 0 (snd (Close 0 ex_busy)) = ([], snd (Close 0 ex_busy))"
proof -
  have h: "\<not> closeOnce (conns ex_busy 0)" "0 \<in> set (sessionsList (gateway ex_busy))"
    "user (conns ex_busy 0) = ''alice''"
    "map fst (fst (Close 0 ex_busy)) =
       [Deregister 0, SessionClose 3, TunnelClose 4, TunnelClose 5, ConnClose 0]"
    "map (\<lambda>(a, g). 0 \<in> set (sessionsList g)) (fst (Close 0 ex_busy)) = [True, False, False, False, False]"
    "map (\<lambda>(a, g). 0 \<in> set (index_at g ''alice'')) (fst (Close 0 ex_busy)) = [True, False, False, False, False]"
    by code_simp+
  have own: "\<forall>u. 0 \<in> set (index_at (gateway ex_busy) u) \<longrightarrow> u = user (conns ex_busy 0)"
    by (simp add: ex_busy_def ex_empty_def ex_conns_def ex_conn_def AddSession_def index_at_def Let_def)
  show ?thesis
    using Close_once [of 0 ex_busy "fst (Close 0 ex_busy)" "snd (Close 0 ex_busy)"] h own
    by simp
qed

subsection \<open>Scavenging\<close>

lemma Since_plain:
  "sint timeout < maxDuration \<Longrightarrow>
   Since n t > sint (timeout :: 64 word) \<longleftrightarrow> n - t > sint timeout"
  using sint_ge [of timeout] by (auto simp: Since_def minDuration_def maxDuration_def)

lemma Since_bounds: "minDuration \<le> Since n t \<and> Since n t \<le> maxDuration"
  by (simp add: Since_def minDuration_def maxDuration_def)

lemma expired_Nil [simp]: "expired timeout now i [] st = []"
  by (simp add: expired_def)

lemma expired_Cons:
  "expired timeout now i (s # ss) st =
     (if Since (now i) (used (conns st s)) > sint timeout then s # expired timeout now (Suc i) ss st
      else expired timeout now (Suc i) ss st)"
proof -
  have "[i..<i + length (s # ss)] = i # [Suc i..<Suc i + length ss]"
    by (subst upt_rec) simp
  then show ?thesis
    unfolding expired_def by simp
qed

lemma expired_used_cong:
  "(\<And>d. used (conns st1 d) = used (conns st d)) \<Longrightarrow>
   expired timeout now i ss st1 = expired timeout now i ss st"
  by (simp add: expired_def)

lemma expired_const:
  "(\<And>k. now k = t) \<Longrightarrow>
   expired timeout now i ss st = filter (\<lambda>s. Since t (used (conns st s)) > sint timeout) ss"
  by (induction ss arbitrary: i) (simp_all add: expired_Cons)

lemma scavenge_loop_close_all:
  "scavenge_loop timeout now i ss st =
     (expired timeout now i ss st, close_all (expired timeout now i ss st) st)"
proof (induction ss arbitrary: i st)
  case Nil
  then show ?case by simp
next
  case (Cons s ss)
  show ?case
  proof (cases "Since (now i) (used (conns st s)) > sint timeout")
    case False
    then show ?thesis
      using Cons.IH [of "Suc i" st] by (simp add: expired_Cons)
  next
    case True
    obtain acts st1 where c: "Close s st = (acts, st1)"
      by (cases "Close s st")
    have e: "expired timeout now (Suc i) ss st1 = expired timeout now (Suc i) ss st"
      using Close_used [of s st] c by (intro expired_used_cong) simp
    show ?thesis
      using True c Cons.IH [of "Suc i" st1]
      by (simp add: expired_Cons e split: prod.splits)
  qed
qed

lemma close_all_others:
  "d \<notin> set cs \<Longrightarrow>
   conns (snd (close_all cs st)) d = conns st d \<and>
   (d \<in> set (sessionsList (gateway (snd (close_all cs st)))) \<longleftrightarrow> d \<in> set (sessionsList (gateway st))) \<and>
   (\<forall>u. d \<in> set (index_at (gateway (snd (close_all cs st))) u) \<longleftrightarrow> d \<in> set (index_at (gateway st) u))"
proof (induction cs arbitrary: st)
  case Nil
  then show ?case by simp
next
  case (Cons c cs)
  have step: "snd (close_all (c # cs) st) = snd (close_all cs (snd (Close c st)))"
    by (simp split: prod.splits)
  from Cons.prems have "d \<noteq> c" "d \<notin> set cs"
    by simp_all
  then show ?case
    unfolding step using Cons.IH [of "snd (Close c st)"]
    by (simp add: Close_other Close_list_other Close_index_other)
qed

lemma close_all_user: "user (conns (snd (close_all cs st)) d) = user (conns st d)"
proof (induction cs arbitrary: st)
  case Nil
  then show ?case by simp
next
  case (Cons c cs)
  have step: "snd (close_all (c # cs) st) = snd (close_all cs (snd (Close c st)))"
    by (simp split: prod.splits)
  show ?case
    unfolding step by (simp add: Cons.IH Close_user)
qed

lemma close_all_closeOnce:
  "closeOnce (conns (snd (close_all cs st)) d) \<longleftrightarrow> d \<in> set cs \<or> closeOnce (conns st d)"
proof (induction cs arbitrary: st)
  case Nil
  then show ?case by simp
next
  case (Cons c cs)
  have step: "snd (close_all (c # cs) st) = snd (close_all cs (snd (Close c st)))"
    by (simp split: prod.splits)
  show ?case
    unfolding step by (auto simp: Cons.IH Close_closeOnce)
qed

lemma close_all_list_gone:
  "d \<notin> set (sessionsList (gateway st)) \<Longrightarrow> d \<notin> set (sessionsList (gateway (snd (close_all cs st))))"
proof (induction cs arbitrary: st)
  case Nil
  then show ?case by simp
next
  case (Cons c cs)
  have step: "snd (close_all (c # cs) st) = snd (close_all cs (snd (Close c st)))"
    by (simp split: prod.splits)
  show ?case
    unfolding step by (rule Cons.IH) (rule Close_list_gone [OF Cons.prems])
qed

lemma close_all_index_gone:
  "d \<notin> set (index_at (gateway st) u) \<Longrightarrow> d \<notin> set (index_at (gateway (snd (close_all cs st))) u)"
proof (induction cs arbitrary: st)
  case Nil
  then show ?case by simp
next
  case (Cons c cs)
  have step: "snd (close_all (c # cs) st) = snd (close_all cs (snd (Close c st)))"
    by (simp split: prod.splits)
  show ?case
    unfolding step by (rule Cons.IH) (rule Close_index_gone [OF Cons.prems])
qed

lemma close_all_removes:
  "d \<in> set cs \<Longrightarrow> \<not> closeOnce (conns st d) \<Longrightarrow>
   d \<notin> set (sessionsList (gateway (snd (close_all cs st)))) \<and>
   d \<notin> set (index_at (gateway (snd (close_all cs st))) (user (conns st d)))"
proof (induction cs arbitrary: st)
  case Nil
  then show ?case by simp
next
  case (Cons c cs)
  have step: "snd (close_all (c # cs) st) = snd (close_all cs (snd (Close c st)))"
    by (simp split: prod.splits)
  show ?case
  proof (cases "d = c")
    case True
    then show ?thesis
      unfolding step using Close_removes [of st c] Cons.prems(2)
      by (simp add: close_all_list_gone close_all_index_gone)
  next
    case False
    then have "d \<in> set cs" "\<not> closeOnce (conns (snd (Close c st)) d)"
      using Cons.prems by (simp_all add: Close_closeOnce)
    then show ?thesis
      unfolding step using Cons.IH [of "snd (Close c st)"] by (simp add: Close_user)
  qed
qed

lemma close_all_ConnClose:
  "ConnClose d \<in> fst ` set (fst (close_all cs st)) \<longleftrightarrow> d \<in> set cs \<and> \<not> closeOnce (conns st d)"
proof (induction cs arbitrary: st)
  case Nil
  then show ?case by simp
next
  case (Cons c cs)
  have step: "fst (close_all (c # cs) st) = fst (Close c st) @ fst (close_all cs (snd (Close c st)))"
    by (simp split: prod.splits)
  show ?case
    unfolding step
    using Cons.IH [of "snd (Close c st)"] Close_ConnClose [of d c st]
    by (auto simp: image_Un Close_closeOnce)
qed

text \<open>
  C8. \<open>ScavengeSessions\<close> calls \<open>Close\<close> on exactly the connections of the list whose idle
  time, the duration that \<^verbatim>\<open>time.Since\<close> returns for \<open>used\<close> at the clock reading of the
  round, is strictly greater than the timeout. For a clock that stands still at \<open>t\<close> and a
  timeout below the largest duration these are the connections with \<open>t - used > timeout\<close>.
  The outcome is that of calling \<open>Close\<close> on them in order: the transport is closed of
  exactly those that were not closed before, these have left the list and the index, and
  every other connection is unchanged and is in the list and the index exactly where it
  was.
\<close>

theorem Scavenge_exact:
  assumes "ScavengeSessions timeout now st = (closed, acts, st')"
  shows "closed = map fst (filter (\<lambda>(s, k). Since (now k) (used (conns st s)) > sint timeout)
                            (zip (Sessions st) [0..<length (Sessions st)])) \<and>
         ((\<forall>k. now k = t) \<longrightarrow>
            closed = filter (\<lambda>s. Since t (used (conns st s)) > sint timeout) (Sessions st)) \<and>
         ((\<forall>k. now k = t) \<and> sint timeout < maxDuration \<longrightarrow>
            closed = filter (\<lambda>s. t - used (conns st s) > sint timeout) (Sessions st)) \<and>
         (acts, st') = close_all closed st \<and>
         (\<forall>d. ConnClose d \<in> fst ` set acts \<longleftrightarrow> d \<in> set closed \<and> \<not> closeOnce (conns st d)) \<and>
         (\<forall>d. d \<in> set closed \<longrightarrow>
            closeOnce (conns st' d) \<and>
            (\<not> closeOnce (conns st d) \<longrightarrow>
               d \<notin> set (sessionsList (gateway st')) \<and>
               d \<notin> set (index_at (gateway st') (user (conns st d))))) \<and>
         (\<forall>d. d \<notin> set closed \<longrightarrow>
            conns st' d = conns st d \<and>
            (d \<in> set (sessionsList (gateway st')) \<longleftrightarrow> d \<in> set (sessionsList (gateway st))) \<and>
            (\<forall>u. d \<in> set (index_at (gateway st') u) \<longleftrightarrow> d \<in> set (index_at (gateway st) u)))"
proof -
  let ?ss = "Sessions st"
  have closed: "closed = expired timeout now 0 ?ss st"
    and run: "(acts, st') = close_all closed st"
    using assms by (auto simp: ScavengeSessions_def scavenge_loop_close_all)
  have acts: "acts = fst (close_all closed st)" and st': "st' = snd (close_all closed st)"
    using run by (metis fst_conv, metis snd_conv)
  have a: "closed = map fst (filter (\<lambda>(s, k). Since (now k) (used (conns st s)) > sint timeout)
                            (zip ?ss [0..<length ?ss]))"
    by (simp add: closed expired_def)
  have b: "(\<forall>k. now k = t) \<longrightarrow>
      closed = filter (\<lambda>s. Since t (used (conns st s)) > sint timeout) ?ss"
    using expired_const [of now t timeout 0 ?ss st] by (simp add: closed)
  have c: "(\<forall>k. now k = t) \<and> sint timeout < maxDuration \<longrightarrow>
      closed = filter (\<lambda>s. t - used (conns st s) > sint timeout) ?ss"
    using b by (auto simp: Since_plain)
  have d: "\<forall>d. ConnClose d \<in> fst ` set acts \<longleftrightarrow> d \<in> set closed \<and> \<not> closeOnce (conns st d)"
    unfolding acts by (simp add: close_all_ConnClose)
  have e: "\<forall>d. d \<in> set closed \<longrightarrow>
            closeOnce (conns st' d) \<and>
            (\<not> closeOnce (conns st d) \<longrightarrow>
               d \<notin> set (sessionsList (gateway st')) \<and>
               d \<notin> set (index_at (gateway st') (user (conns st d))))"
    unfolding st' using close_all_removes by (simp add: close_all_closeOnce)
  have f: "\<forall>d. d \<notin> set closed \<longrightarrow>
            conns st' d = conns st d \<and>
            (d \<in> set (sessionsList (gateway st')) \<longleftrightarrow> d \<in> set (sessionsList (gateway st))) \<and>
            (\<forall>u. d \<in> set (index_at (gateway st') u) \<longleftrightarrow> d \<in> set (index_at (gateway st) u))"
    unfolding st' using close_all_others by blast
  show ?thesis
    by (intro conjI) (rule a b c run d e f)+
qed

theorem Scavenge_exact_witness:
  "Sessions ex_idle = [2, 1, 0] \<and>
   map (\<lambda>d. 120 - used (conns ex_idle d)) [2, 1, 0] = [50, 20, 120] \<and>
   sint (50 :: 64 word) = 50 \<and>
   fst (ScavengeSessions 50 (\<lambda>_. 120) ex_idle) = [0] \<and>
   map fst (fst (snd (ScavengeSessions 50 (\<lambda>_. 120) ex_idle))) = [Deregister 0, ConnClose 0] \<and>
   closeOnce (conns (snd (snd (ScavengeSessions 50 (\<lambda>_. 120) ex_idle))) 0) \<and>
   sessionsList (gateway (snd (snd (ScavengeSessions 50 (\<lambda>_. 120) ex_idle)))) = [2, 1] \<and>
   0 \<notin> set (index_at (gateway (snd (snd (ScavengeSessions 50 (\<lambda>_. 120) ex_idle)))) ''alice'') \<and>
   conns (snd (snd (ScavengeSessions 50 (\<lambda>_. 120) ex_idle))) 2 = conns ex_idle 2 \<and>
   sint (9223372036854775807 :: 64 word) = 9223372036854775807 \<and>
   18446744073709551616 - used (conns ex_idle 0) > (9223372036854775807 :: int) \<and>
   fst (ScavengeSessions 9223372036854775807 (\<lambda>_. 18446744073709551616) ex_idle) = []"
proof -
  have h: "Sessions ex_idle = [2, 1, 0]"
    "map (\<lambda>d. 120 - used (conns ex_idle d)) [2, 1, 0] = [50, 20, 120]"
    "sint (50 :: 64 word) = 50"
    by code_simp+
  have h0: "\<not> closeOnce (conns ex_idle 0)" "user (conns ex_idle 0) = ''alice''"
    by code_simp+
  have tr: "map fst (fst (snd (ScavengeSessions 50 (\<lambda>_. 120) ex_idle))) = [Deregister 0, ConnClose 0]"
    "sessionsList (gateway (snd (snd (ScavengeSessions 50 (\<lambda>_. 120) ex_idle)))) = [2, 1]"
    by code_simp+
  obtain closed acts st' where r: "ScavengeSessions 50 (\<lambda>_. 120) ex_idle = (closed, acts, st')"
    by (metis prod.collapse)
  note T = Scavenge_exact [OF r, of 120]
  have m: "sint (50 :: 64 word) < maxDuration"
    by (simp add: maxDuration_def)
  from T [THEN conjunct2, THEN conjunct2, THEN conjunct1] m
  have "closed = filter (\<lambda>s. 120 - used (conns ex_idle s) > sint (50 :: 64 word)) (Sessions ex_idle)"
    by simp
  then have c: "closed = [0]"
    using h by simp
  from T [THEN conjunct2, THEN conjunct2, THEN conjunct2, THEN conjunct2, THEN conjunct2, THEN conjunct1]
  have "\<forall>d. d \<in> set closed \<longrightarrow>
      closeOnce (conns st' d) \<and>
      (\<not> closeOnce (conns ex_idle d) \<longrightarrow>
         d \<notin> set (sessionsList (gateway st')) \<and>
         d \<notin> set (index_at (gateway st') (user (conns ex_idle d))))" .
  then have e: "closeOnce (conns st' 0)" "0 \<notin> set (index_at (gateway st') ''alice'')"
    using c h0 by simp_all
  from T [THEN conjunct2, THEN conjunct2, THEN conjunct2, THEN conjunct2, THEN conjunct2, THEN conjunct2]
  have "\<forall>d. d \<notin> set closed \<longrightarrow> conns st' d = conns ex_idle d"
    by simp
  then have f: "conns st' 2 = conns ex_idle 2"
    using c by simp
  have s: "sint (9223372036854775807 :: 64 word) = 9223372036854775807"
    by simp
  have u: "map (\<lambda>d. used (conns ex_idle d)) [2, 1, 0] = [70, 100, 0]"
    by code_simp
  obtain closed2 acts2 st2 where
    r2: "ScavengeSessions 9223372036854775807 (\<lambda>_. 18446744073709551616) ex_idle = (closed2, acts2, st2)"
    by (metis prod.collapse)
  from Scavenge_exact [OF r2, of 18446744073709551616, THEN conjunct2, THEN conjunct1]
  have "closed2 = filter (\<lambda>s. Since 18446744073709551616 (used (conns ex_idle s))
                              > sint (9223372036854775807 :: 64 word)) (Sessions ex_idle)"
    by simp
  then have c2: "closed2 = []"
    using h(1) u s by (simp add: Since_def maxDuration_def minDuration_def)
  have p2: "fst (ScavengeSessions 9223372036854775807 (\<lambda>_. 18446744073709551616) ex_idle) = closed2"
    unfolding r2 by simp
  have p: "fst (ScavengeSessions 50 (\<lambda>_. 120) ex_idle) = closed"
    "snd (snd (ScavengeSessions 50 (\<lambda>_. 120) ex_idle)) = st'"
    unfolding r by simp_all
  show ?thesis
    unfolding p p2 using h tr [unfolded p] c e f s u c2 by simp
qed

end
